theory Spec2Isabelle
  imports Complex_Main "HOL-Library.Sublist"
begin

section \<open>The Lair Chat Python client: message polling, display and logout\<close>

text \<open>
  This theory embeds the parts of \<^verbatim>\<open>examples/python-client/lair_chat_client.py\<close>
  that the polling loop, the message display and the logout are made of:
  \<^verbatim>\<open>get_messages\<close>, the closure \<^verbatim>\<open>poll_messages\<close> of \<^verbatim>\<open>start_message_polling\<close>,
  \<^verbatim>\<open>start_message_polling\<close>, \<^verbatim>\<open>stop_message_polling\<close>, \<^verbatim>\<open>_display_message\<close> and
  \<^verbatim>\<open>logout\<close>.

  The HTTP transport (\<^verbatim>\<open>_make_request\<close>, the \<^verbatim>\<open>requests\<close> library and the server behind
  it) is the environment: what a request returns or raises is an input of the model.
  The functions of the Python library whose exceptions the code meets
  (\<^verbatim>\<open>datetime.fromisoformat\<close>, \<^verbatim>\<open>time.sleep\<close>, the \<^verbatim>\<open>print\<close> of a message line or
  of the text of an exception to the standard output) are parameters of the model, so
  that every theorem holds for whatever they do.
  The polling loop runs on a thread of its own, so its body is cut into atomic steps at
  the places where it blocks or touches shared state, and the client is a transition
  system whose events are the calls of the controlling thread and the steps of the
  polling threads.
\<close>

subsection \<open>Text, values, messages and the transport's answers\<close>

text \<open>
  A Python \<^verbatim>\<open>str\<close> is a sequence of Unicode code points, lone surrogates included
  (the JSON decoder produces them from escapes such as that of U+D800): a list of
  numbers. \<open>ustr\<close> is the \<^verbatim>\<open>str\<close> of an ASCII literal of the code. The fields of a
  message, the texts of exceptions and the lines that are printed are such strings.
\<close>

type_synonym pystr = "nat list"

definition ustr :: "string \<Rightarrow> pystr" where
  "ustr s = map of_char s"

text \<open>
  A message is a \<^verbatim>\<open>Dict[str, Any]\<close> decoded from JSON. The code only ever calls
  \<^verbatim>\<open>.replace\<close> on a field value (which only a \<^verbatim>\<open>str\<close> has) and formats it with
  \<^verbatim>\<open>str()\<close>, so a value is either a string or some other JSON value, kept as the
  text \<^verbatim>\<open>str()\<close> gives for it.
\<close>

datatype jvalue = JStr pystr | JOther pystr

type_synonym message = "pystr \<rightharpoonup> jvalue"

text \<open>
  The exceptions the code meets, each with its message text. \<^verbatim>\<open>_make_request\<close> raises
  \<^verbatim>\<open>requests.exceptions.RequestException\<close> for a network error and \<^verbatim>\<open>ValueError\<close>
  for an API error or an undecodable body; \<^verbatim>\<open>datetime.fromisoformat\<close> raises
  \<^verbatim>\<open>ValueError\<close>; \<^verbatim>\<open>time.sleep\<close> raises \<^verbatim>\<open>ValueError\<close> or \<^verbatim>\<open>OverflowError\<close>;
  \<^verbatim>\<open>.replace\<close> or \<^verbatim>\<open>.get\<close> on a value that has no such method raises
  \<^verbatim>\<open>AttributeError\<close>; \<^verbatim>\<open>len\<close> of a value without length and slicing a \<^verbatim>\<open>dict\<close>
  raise \<^verbatim>\<open>TypeError\<close>; \<^verbatim>\<open>print\<close> raises \<^verbatim>\<open>UnicodeEncodeError\<close> on text that the
  standard output cannot encode.
\<close>

datatype error =
    RequestException pystr
  | ValueError pystr
  | AttributeError pystr
  | TypeError pystr
  | OverflowError pystr
  | UnicodeEncodeError pystr

fun error_str :: "error \<Rightarrow> pystr" where
  "error_str (RequestException t) = t"
| "error_str (ValueError t) = t"
| "error_str (AttributeError t) = t"
| "error_str (TypeError t) = t"
| "error_str (OverflowError t) = t"
| "error_str (UnicodeEncodeError t) = t"

text \<open>
  What the decoded response holds under its \<^verbatim>\<open>data\<close> key, as far as the loop can tell
  the JSON values apart: a list (of messages, the declared \<^verbatim>\<open>List[Dict[str, Any]]\<close>; the
  loop is polymorphic in the type of the elements), a string of so many characters, an
  object with so many keys, or a value without length (\<^verbatim>\<open>null\<close>, a number, a boolean)
  with the name of its Python type.
\<close>

datatype 'm jdata = DList "'m list" | DStr nat | DDict nat | DScalar string

record 'm response =
  data :: "'m jdata option"

type_synonym 'm outcome = "error + 'm response"

text \<open>
  A Python \<^verbatim>\<open>float\<close>, as far as \<^verbatim>\<open>time.sleep\<close> tells floats apart: a number, an
  infinity or not a number.
\<close>

datatype pyfloat = Finite real | PosInf | NegInf | NaN

subsection \<open>Displaying a message\<close>

text \<open>
  \<^verbatim>\<open>datetime.fromisoformat\<close> belongs to the Python library, and what it accepts depends
  on the Python version: it is a parameter \<open>fromiso\<close> of the model, \<open>None\<close> where it raises
  \<^verbatim>\<open>ValueError\<close>. Of the \<^verbatim>\<open>datetime\<close> it returns, \<^verbatim>\<open>strftime('%H:%M:%S')\<close> reads the
  time of day.
\<close>

record datetime =
  hour :: nat
  minute :: nat
  second :: nat

definition two_digits :: "nat \<Rightarrow> string" where
  "two_digits n = [''0123456789'' ! ((n div 10) mod 10), ''0123456789'' ! (n mod 10)]"

definition strftime :: "datetime \<Rightarrow> pystr" where
  "strftime dt =
     ustr (two_digits (hour dt) @ '':'' @ two_digits (minute dt) @ '':'' @
           two_digits (second dt))"

text \<open>\<^verbatim>\<open>timestamp.replace('Z', '+00:00')\<close> on a string.\<close>

definition replace_Z :: "pystr \<Rightarrow> pystr" where
  "replace_Z s = concat (map (\<lambda>c. if c = of_char CHR ''Z'' then ustr ''+00:00'' else [c]) s)"

fun py_str :: "jvalue \<Rightarrow> pystr" where
  "py_str (JStr s) = s"
| "py_str (JOther t) = t"

text \<open>\<^verbatim>\<open>message.get(key, default)\<close>.\<close>

definition msg_get :: "message \<Rightarrow> pystr \<Rightarrow> jvalue \<Rightarrow> jvalue" where
  "msg_get message key dflt = (case message key of None \<Rightarrow> dflt | Some v \<Rightarrow> v)"

text \<open>The body of the \<^verbatim>\<open>try\<close> block of \<^verbatim>\<open>_display_message\<close>: \<^verbatim>\<open>time_str\<close>, or the exception.\<close>

definition format_time :: "(pystr \<Rightarrow> datetime option) \<Rightarrow> jvalue \<Rightarrow> error + pystr" where
  "format_time fromiso timestamp =
     (case timestamp of
        JOther t \<Rightarrow> Inl (AttributeError (ustr ''object has no attribute replace''))
      | JStr ts \<Rightarrow>
          (case fromiso (replace_Z ts) of
             None \<Rightarrow> Inl (ValueError (ustr ''Invalid isoformat string''))
           | Some dt \<Rightarrow> Inr (strftime dt)))"

text \<open>
  \<^verbatim>\<open>_display_message\<close>. The bare \<^verbatim>\<open>except\<close> turns every exception of the \<^verbatim>\<open>try\<close> block
  into \<^verbatim>\<open>time_str = timestamp\<close>. The \<^verbatim>\<open>print\<close> that follows is outside the \<^verbatim>\<open>try\<close>:
  \<open>stdout line\<close> is what writing the line to the standard output does, \<open>None\<close> when it
  is written and \<open>Some e\<close> when \<^verbatim>\<open>print\<close> raises \<open>e\<close>. The result is \<open>Inr\<close> the line
  that was printed, or \<open>Inl\<close> the exception that leaves the function.
\<close>

definition display_message ::
  "(pystr \<Rightarrow> datetime option) \<Rightarrow> (pystr \<Rightarrow> error option) \<Rightarrow> message \<Rightarrow> error + pystr" where
  "display_message fromiso stdout message =
     (let timestamp = msg_get message (ustr ''timestamp'') (JStr (ustr ''''));
          author = msg_get message (ustr ''author'') (JStr (ustr ''Unknown''));
          content = msg_get message (ustr ''content'') (JStr (ustr ''''));
          time_str = (case format_time fromiso timestamp of
                        Inr s \<Rightarrow> s
                      | Inl e \<Rightarrow> py_str timestamp);
          line = ustr ''['' @ time_str @ ustr ''] '' @ py_str author @ ustr '': '' @
                 py_str content
      in case stdout line of None \<Rightarrow> Inr line | Some e \<Rightarrow> Inl e)"

text \<open>
  A standard output that encodes to UTF-8: every code point can be written except the
  surrogates U+D800 to U+DFFF.
\<close>

definition utf8_stdout :: "pystr \<Rightarrow> error option" where
  "utf8_stdout line =
     (if list_ex (\<lambda>c. 55296 \<le> c \<and> c \<le> 57343) line
      then Some (UnicodeEncodeError (ustr ''surrogates not allowed''))
      else None)"

text \<open>Whether \<^verbatim>\<open>_display_message\<close> raises on a message: \<open>Some e\<close> when it raises \<open>e\<close>.\<close>

definition display_of ::
  "(pystr \<Rightarrow> datetime option) \<Rightarrow> (pystr \<Rightarrow> error option) \<Rightarrow> message \<Rightarrow> error option" where
  "display_of fromiso stdout message =
     (case display_message fromiso stdout message of Inl e \<Rightarrow> Some e | Inr line \<Rightarrow> None)"

subsection \<open>What a polling thread does\<close>

datatype 'm action =
    AFetch string nat        \<comment> \<open>\<^verbatim>\<open>get_messages(room_id, limit)\<close> is called\<close>
  | ADisplay 'm              \<comment> \<open>\<^verbatim>\<open>_display_message(msg)\<close> is called\<close>
  | ASleep pyfloat           \<comment> \<open>\<^verbatim>\<open>time.sleep(interval)\<close> has begun to sleep\<close>
  | APrint pystr             \<comment> \<open>a line printed by \<^verbatim>\<open>print\<close>\<close>

text \<open>
  What the loop runs against. \<open>display m\<close> is what the call \<^verbatim>\<open>self._display_message(m)\<close>
  does with the element \<open>m\<close> of the fetched list: \<open>None\<close> when it returns, \<open>Some e\<close>
  when it raises \<open>e\<close> (for a message that is a \<^verbatim>\<open>dict\<close> this is \<open>display_of\<close>; an element
  that is no \<^verbatim>\<open>dict\<close> has no \<^verbatim>\<open>.get\<close> and raises \<^verbatim>\<open>AttributeError\<close>).
  \<open>time_sleep x\<close> is what \<^verbatim>\<open>time.sleep(x)\<close> does: \<open>None\<close> when it sleeps and returns,
  \<open>Some e\<close> when it raises \<open>e\<close> at once. \<open>stdout_write line\<close> is what the \<^verbatim>\<open>print\<close> of an
  error line by the thread does: \<open>None\<close> when the line is written, \<open>Some e\<close> when
  \<^verbatim>\<open>print\<close> raises \<open>e\<close> (the text of an exception may hold what the standard output
  cannot encode).
\<close>

record 'm env =
  display :: "'m \<Rightarrow> error option"
  time_sleep :: "pyfloat \<Rightarrow> error option"
  stdout_write :: "pystr \<Rightarrow> error option"

text \<open>
  \<^verbatim>\<open>time.sleep\<close> as CPython has it: not a number is a \<^verbatim>\<open>ValueError\<close>, a value beyond
  what the platform's time type holds (\<open>limit\<close> seconds, the infinities always) is an
  \<^verbatim>\<open>OverflowError\<close>, any other negative value is a \<^verbatim>\<open>ValueError\<close>.
\<close>

definition py_sleep :: "real \<Rightarrow> pyfloat \<Rightarrow> error option" where
  "py_sleep limit x =
     (case x of
        NaN \<Rightarrow> Some (ValueError (ustr ''Invalid value NaN (not a number)''))
      | PosInf \<Rightarrow> Some (OverflowError (ustr ''timestamp out of range for platform time_t''))
      | NegInf \<Rightarrow> Some (OverflowError (ustr ''timestamp out of range for platform time_t''))
      | Finite r \<Rightarrow>
          (if r < - limit \<or> limit < r
           then Some (OverflowError (ustr ''timestamp out of range for platform time_t''))
           else if r < 0 then Some (ValueError (ustr ''sleep length must be non-negative''))
           else None))"

text \<open>
  \<^verbatim>\<open>get_messages\<close>: the answer's \<^verbatim>\<open>data\<close> (default \<^verbatim>\<open>[]\<close>), whatever JSON value it
  is; any exception of the request is printed and \<^verbatim>\<open>[]\<close> is returned. The result is
  \<open>Inr\<close> the value and what was printed. When the \<^verbatim>\<open>print\<close> in the handler raises, its
  exception leaves \<^verbatim>\<open>get_messages\<close>: \<open>Inl\<close>.
\<close>

definition get_messages :: "'m env \<Rightarrow> 'm outcome \<Rightarrow> error + 'm jdata \<times> 'm action list" where
  "get_messages env r =
     (case r of
        Inl e \<Rightarrow>
          (case stdout_write env (ustr ''Failed to get messages: '' @ error_str e) of
             None \<Rightarrow> Inr (DList [], [APrint (ustr ''Failed to get messages: '' @ error_str e)])
           | Some e' \<Rightarrow> Inl e')
      | Inr resp \<Rightarrow> Inr ((case data resp of None \<Rightarrow> DList [] | Some d \<Rightarrow> d), []))"

text \<open>
  The program counter of \<^verbatim>\<open>poll_messages\<close>. \<open>Delivering ms n\<close> is the \<^verbatim>\<open>for\<close> loop
  with \<open>ms\<close> still to display and \<open>n = len(messages)\<close>, to be stored in
  \<^verbatim>\<open>last_message_count\<close> when the loop is done. \<open>Exited\<close>: the \<^verbatim>\<open>while\<close> condition was
  false and the function returned. \<open>Crashed\<close>: an exception left the function.
\<close>

datatype 'm pc = AtWhile | InFetch | Delivering "'m list" nat | Sleeping | Exited | Crashed

text \<open>
  The variables of the closure: \<^verbatim>\<open>room_id\<close> and \<^verbatim>\<open>interval\<close> of the enclosing call, and
  \<^verbatim>\<open>last_message_count\<close>.
\<close>

record 'm thread =
  room_id :: string
  interval :: pyfloat
  last_message_count :: nat
  pc :: "'m pc"

definition new_thread :: "string \<Rightarrow> pyfloat \<Rightarrow> 'm thread" where
  "new_thread room iv =
     \<lparr>room_id = room, interval = iv, last_message_count = 0, pc = AtWhile\<rparr>"

text \<open>
  The handler \<^verbatim>\<open>except Exception as e\<close> of the loop, entered with what the \<^verbatim>\<open>try\<close>
  block has done so far: it prints the exception and sleeps; \<^verbatim>\<open>last_message_count\<close>
  stays as it is. When this \<^verbatim>\<open>print\<close> or this \<^verbatim>\<open>time.sleep\<close> raises, the exception
  leaves the function and the thread ends.
\<close>

definition handler ::
  "'m env \<Rightarrow> 'm thread \<Rightarrow> error \<Rightarrow> 'm action list \<Rightarrow> 'm thread \<times> 'm action list" where
  "handler env th e out =
     (case stdout_write env (ustr ''Error polling messages: '' @ error_str e) of
        Some e' \<Rightarrow> (th\<lparr>pc := Crashed\<rparr>, out)
      | None \<Rightarrow>
          (case time_sleep env (interval th) of
             None \<Rightarrow> (th\<lparr>pc := Sleeping\<rparr>,
                      out @ [APrint (ustr ''Error polling messages: '' @ error_str e),
                             ASleep (interval th)])
           | Some e' \<Rightarrow> (th\<lparr>pc := Crashed\<rparr>,
                         out @ [APrint (ustr ''Error polling messages: '' @ error_str e)])))"

text \<open>
  \<^verbatim>\<open>time.sleep(interval)\<close> at the end of the \<^verbatim>\<open>try\<close> block; when it raises, the handler
  runs.
\<close>

definition sleep :: "'m env \<Rightarrow> 'm thread \<Rightarrow> 'm action list \<Rightarrow> 'm thread \<times> 'm action list" where
  "sleep env th out =
     (case time_sleep env (interval th) of
        None \<Rightarrow> (th\<lparr>pc := Sleeping\<rparr>, out @ [ASleep (interval th)])
      | Some e \<Rightarrow> handler env th e out)"

text \<open>
  What the thread is given at a step: \<open>Tick\<close> lets it run on; \<open>Returned r\<close> ends the
  request in flight with the transport's answer \<open>r\<close>.
\<close>

datatype 'm tinput = Tick | Returned "'m outcome"

text \<open>
  One atomic step of \<^verbatim>\<open>poll_messages\<close>; \<open>flag\<close> is \<^verbatim>\<open>self.message_polling\<close> at that
  moment, read by the \<^verbatim>\<open>while\<close> test only. \<open>None\<close>: the thread cannot take this step.

  When the request returns and \<^verbatim>\<open>get_messages\<close> raises, the handler runs. Otherwise
  \<^verbatim>\<open>len(messages)\<close> raises on a value without length. With
  \<^verbatim>\<open>len(messages) > last_message_count\<close>, the slice raises on a \<^verbatim>\<open>dict\<close>, and the first
  \<^verbatim>\<open>_display_message\<close> raises on a character of a string. For a list the \<^verbatim>\<open>for\<close> loop
  begins; each of its steps calls \<^verbatim>\<open>_display_message\<close>, and when the call raises, the
  handler runs and the rest of the \<^verbatim>\<open>try\<close> block, the assignment to
  \<^verbatim>\<open>last_message_count\<close> included, is skipped.
\<close>

fun thread_step ::
  "'m env \<Rightarrow> bool \<Rightarrow> 'm tinput \<Rightarrow> 'm thread \<Rightarrow> ('m thread \<times> 'm action list) option" where
  "thread_step env flag inp th =
     (case (pc th, inp) of
        (AtWhile, Tick) \<Rightarrow>
          (if flag then Some (th\<lparr>pc := InFetch\<rparr>, [AFetch (room_id th) 10])
           else Some (th\<lparr>pc := Exited\<rparr>, []))
      | (InFetch, Returned r) \<Rightarrow>
          (case get_messages env r of
             Inl e \<Rightarrow> Some (handler env th e [])
           | Inr (messages, out) \<Rightarrow>
               (case messages of
                  DScalar ty \<Rightarrow>
                    Some (handler env th
                            (TypeError (ustr (''object of type '' @ ty @ '' has no len()''))) out)
                | DDict n \<Rightarrow>
                    (if n > last_message_count th
                     then Some (handler env th (TypeError (ustr ''unhashable type: slice'')) out)
                     else Some (sleep env th out))
                | DStr n \<Rightarrow>
                    (if n > last_message_count th
                     then Some (handler env th
                                  (AttributeError (ustr ''str object has no attribute get'')) out)
                     else Some (sleep env th out))
                | DList ms \<Rightarrow>
                    (if length ms > last_message_count th
                     then Some (th\<lparr>pc := Delivering (drop (last_message_count th) ms)
                                                     (length ms)\<rparr>, out)
                     else Some (sleep env th out))))
      | (Delivering (m # ms) n, Tick) \<Rightarrow>
          (case display env m of
             None \<Rightarrow> Some (th\<lparr>pc := Delivering ms n\<rparr>, [ADisplay m])
           | Some e \<Rightarrow> Some (handler env th e [ADisplay m]))
      | (Delivering [] n, Tick) \<Rightarrow> Some (sleep env (th\<lparr>last_message_count := n\<rparr>) [])
      | (Sleeping, Tick) \<Rightarrow> Some (th\<lparr>pc := AtWhile\<rparr>, [])
      | _ \<Rightarrow> None)"

text \<open>A run of one thread: the flag it sees and the input it gets, step by step.\<close>

fun thread_run ::
  "'m env \<Rightarrow> (bool \<times> 'm tinput) list \<Rightarrow> 'm thread \<Rightarrow> ('m thread \<times> 'm action list) option" where
  "thread_run env [] th = Some (th, [])"
| "thread_run env ((flag, inp) # rest) th =
     (case thread_step env flag inp th of
        None \<Rightarrow> None
      | Some (th', out) \<Rightarrow>
          (case thread_run env rest th' of
             None \<Rightarrow> None
           | Some (th'', out') \<Rightarrow> Some (th'', out @ out')))"

text \<open>The messages handed to \<^verbatim>\<open>_display_message\<close>, in order.\<close>

fun displayed :: "'m action list \<Rightarrow> 'm list" where
  "displayed [] = []"
| "displayed (ADisplay m # as) = m # displayed as"
| "displayed (a # as) = displayed as"

text \<open>
  In every state the loop reaches, the count to be stored after the \<^verbatim>\<open>for\<close> loop is
  larger than the cursor: the loop was entered under \<^verbatim>\<open>len(messages) > last_message_count\<close>.
\<close>

definition cursor_ok :: "'m thread \<Rightarrow> bool" where
  "cursor_ok th = (case pc th of Delivering ms n \<Rightarrow> last_message_count th < n | _ \<Rightarrow> True)"

subsection \<open>Fetch results that are windows of one history\<close>

text \<open>
  \<open>is_window hist lo xs\<close>: the list \<open>xs\<close> is the part of the room's history \<open>hist\<close>
  (in arrival order) that starts at position \<open>lo\<close>.
\<close>

definition is_window :: "'m list \<Rightarrow> nat \<Rightarrow> 'm list \<Rightarrow> bool" where
  "is_window hist lo xs = (xs = take (length xs) (drop lo hist))"

text \<open>
  \<open>windows env hist lo0 los inputs\<close>: the results of the fetches in \<open>inputs\<close> are lists that
  are windows of \<open>hist\<close>, the k-th starting at the k-th position of \<open>los\<close>, and the starts
  never move backwards from \<open>lo0\<close> on: the server may drop old messages from the front of
  the window and append new ones at its end. A failed fetch counts with the \<^verbatim>\<open>[]\<close> that
  \<^verbatim>\<open>get_messages\<close> returns for it.
\<close>

fun windows ::
  "'m env \<Rightarrow> 'm list \<Rightarrow> nat \<Rightarrow> nat list \<Rightarrow> (bool \<times> 'm tinput) list \<Rightarrow> bool" where
  "windows env hist lo0 los [] = True"
| "windows env hist lo0 los ((flag, Tick) # rest) = windows env hist lo0 los rest"
| "windows env hist lo0 [] ((flag, Returned r) # rest) = False"
| "windows env hist lo0 (lo # los) ((flag, Returned r) # rest) =
     (case get_messages env r of
        Inr (DList xs, out) \<Rightarrow>
          lo0 \<le> lo \<and> is_window hist lo xs \<and> windows env hist lo los rest
      | _ \<Rightarrow> False)"

subsection \<open>The client and its threads\<close>

text \<open>
  The controlling thread calls \<^verbatim>\<open>start_message_polling\<close>, \<^verbatim>\<open>stop_message_polling\<close> and
  \<^verbatim>\<open>logout\<close>. Each of them runs \<^verbatim>\<open>stop_message_polling\<close> first (\<^verbatim>\<open>start\<close> only when
  \<^verbatim>\<open>message_polling\<close> is set), which may block in \<^verbatim>\<open>polling_thread.join(timeout=1.0)\<close>.
\<close>

datatype call = Start string pyfloat | Stop | Logout

datatype actor = Main | Poller nat

text \<open>
  The attributes of \<^verbatim>\<open>LairChatClient\<close> that the three methods read or write
  (\<open>headers\<close> is \<^verbatim>\<open>session.headers\<close>, \<open>polling_thread\<close> the index of the thread object
  in \<open>threads\<close>), and with them: every thread the client has started, where the
  controlling thread is (\<open>main = Some c\<close>: inside call \<open>c\<close>, blocked in the \<^verbatim>\<open>join\<close>;
  \<open>None\<close>: between calls) and everything done so far, in order.
\<close>

record 'm client =
  headers :: "string \<rightharpoonup> string"
  token :: "string option"
  user_info :: "message option"
  current_room :: "message option"
  message_polling :: bool
  polling_thread :: "nat option"
  current_room_id :: "string option"
  threads :: "'m thread list"
  main :: "call option"
  log :: "(actor \<times> 'm action) list"

text \<open>
  \<^verbatim>\<open>__init__\<close>, given the default headers of a fresh \<^verbatim>\<open>requests.Session\<close>.
  \<^verbatim>\<open>current_room_id\<close> is not set there: it is first assigned by
  \<^verbatim>\<open>start_message_polling\<close>.
\<close>

definition init :: "(string \<rightharpoonup> string) \<Rightarrow> 'm client" where
  "init session_headers =
     \<lparr>headers = session_headers(''Content-Type'' \<mapsto> ''application/json'',
                                 ''User-Agent'' \<mapsto> ''LairChatPythonClient/1.0''),
      token = None, user_info = None, current_room = None,
      message_polling = False, polling_thread = None, current_room_id = None,
      threads = [], main = None, log = []\<rparr>"

definition say :: "actor \<Rightarrow> 'm action list \<Rightarrow> 'm client \<Rightarrow> 'm client" where
  "say who out s = s\<lparr>log := log s @ map (Pair who) out\<rparr>"

text \<open>
  What is left of a call once its \<^verbatim>\<open>stop_message_polling\<close> part is over.
  \<^verbatim>\<open>start_message_polling\<close>: set the flag, remember the room, create and start the
  thread, print. \<^verbatim>\<open>logout\<close>: drop the \<^verbatim>\<open>Authorization\<close> header if present, clear the
  three attributes, print. The status lines of these methods are fixed ASCII text (with
  the room identifier, an 8-bit string here) and are written as they are.
\<close>

fun after_stop :: "call \<Rightarrow> 'm client \<Rightarrow> 'm client" where
  "after_stop Stop s = s"
| "after_stop (Start room iv) s =
     say Main [APrint (ustr (''Started message polling for room '' @ room))]
       (s\<lparr>message_polling := True,
          current_room_id := Some room,
          threads := threads s @ [new_thread room iv],
          polling_thread := Some (length (threads s))\<rparr>)"
| "after_stop Logout s =
     say Main [APrint (ustr ''Logged out successfully'')]
       (s\<lparr>headers := (if ''Authorization'' \<in> dom (headers s)
                       then (headers s)(''Authorization'' := None) else headers s),
          token := None, user_info := None, current_room := None\<rparr>)"

text \<open>The \<^verbatim>\<open>print\<close> that ends \<^verbatim>\<open>stop_message_polling\<close> when the flag was set.\<close>

definition stopped :: "'m client \<Rightarrow> 'm client" where
  "stopped s = say Main [APrint (ustr ''Stopped message polling'')] s"

text \<open>
  A call begins. When \<^verbatim>\<open>message_polling\<close> is set, \<^verbatim>\<open>stop_message_polling\<close> clears it and,
  if there is a thread object, blocks in its \<^verbatim>\<open>join\<close>.
\<close>

definition begin_call :: "call \<Rightarrow> 'm client \<Rightarrow> 'm client" where
  "begin_call c s =
     (if message_polling s
      then (let s1 = s\<lparr>message_polling := False\<rparr> in
            case polling_thread s1 of
              Some t \<Rightarrow> s1\<lparr>main := Some c\<rparr>
            | None \<Rightarrow> after_stop c (stopped s1))
      else after_stop c s)"

text \<open>A polling thread takes a step, with the flag as it is now.\<close>

definition poll :: "'m env \<Rightarrow> nat \<Rightarrow> 'm tinput \<Rightarrow> 'm client \<Rightarrow> 'm client option" where
  "poll env t inp s =
     (if t < length (threads s)
      then (case thread_step env (message_polling s) inp (threads s ! t) of
              None \<Rightarrow> None
            | Some (th', out) \<Rightarrow>
                Some (say (Poller t) out (s\<lparr>threads := (threads s)[t := th']\<rparr>)))
      else None)"

text \<open>
  The events. \<open>JoinReturns\<close>: the \<^verbatim>\<open>join(timeout=1.0)\<close> in which the controlling thread
  is blocked returns, because the polling thread has ended or because one second has
  passed. Time is not part of the model, so the event is possible whenever the
  controlling thread is blocked; in the program the second case needs a polling thread
  that stays for more than a second in its request (which has a timeout of 30 seconds)
  or in its sleep (2 seconds by default).
\<close>

datatype 'm event = Call call | JoinReturns | Thread nat | FetchReturns nat "'m outcome"

fun step :: "'m env \<Rightarrow> 'm event \<Rightarrow> 'm client \<Rightarrow> 'm client option" where
  "step env (Call c) s = (if main s = None then Some (begin_call c s) else None)"
| "step env JoinReturns s =
     (case main s of
        None \<Rightarrow> None
      | Some c \<Rightarrow> Some (after_stop c (stopped (s\<lparr>main := None\<rparr>))))"
| "step env (Thread t) s = poll env t Tick s"
| "step env (FetchReturns t r) s = poll env t (Returned r) s"

fun run :: "'m env \<Rightarrow> 'm event list \<Rightarrow> 'm client \<Rightarrow> 'm client option" where
  "run env [] s = Some s"
| "run env (e # es) s = (case step env e s of None \<Rightarrow> None | Some s' \<Rightarrow> run env es s')"

text \<open>A thread is running as long as its function has not returned or raised.\<close>

definition running :: "'m thread \<Rightarrow> bool" where
  "running th = (pc th \<noteq> Exited \<and> pc th \<noteq> Crashed)"

text \<open>The messages a given thread has displayed, read off the log.\<close>

definition displayed_by :: "nat \<Rightarrow> (actor \<times> 'm action) list \<Rightarrow> 'm list" where
  "displayed_by t l = displayed (map snd (filter (\<lambda>(who, a). who = Poller t) l))"

fun is_call :: "'m event \<Rightarrow> bool" where
  "is_call (Call c) = True"
| "is_call e = False"

text \<open>
  The environment of the examples: every message is displayed without an exception,
  every error line is written, and \<^verbatim>\<open>time.sleep\<close> is CPython's on a platform with
  64-bit nanosecond time.
\<close>

definition plain_env :: "'m env" where
  "plain_env =
     \<lparr>display = (\<lambda>m. None), time_sleep = py_sleep 9223372036, stdout_write = (\<lambda>line. None)\<rparr>"

subsection \<open>Invariants used in the proofs\<close>

text \<open>
  \<open>delivered_within hist lo th D\<close>: what the thread has displayed so far (\<open>D\<close>), followed
  by what its \<^verbatim>\<open>for\<close> loop still has to display, lies in order inside the part of the
  history that ends where the cursor points, counted from the window start \<open>lo\<close>.
\<close>

definition delivered_within :: "'m list \<Rightarrow> nat \<Rightarrow> 'm thread \<Rightarrow> 'm list \<Rightarrow> bool" where
  "delivered_within hist lo th D =
     (case pc th of
        Delivering ms n \<Rightarrow> subseq (D @ ms) (take (lo + n) hist)
      | _ \<Rightarrow> subseq D (take (lo + last_message_count th) hist))"

text \<open>The state \<^verbatim>\<open>logout\<close> leaves behind.\<close>

definition logged_out :: "'m client \<Rightarrow> bool" where
  "logged_out s =
     (token s = None \<and> user_info s = None \<and> current_room s = None \<and>
      ''Authorization'' \<notin> dom (headers s))"

text \<open>
  While a \<^verbatim>\<open>logout\<close> that found the headers \<open>h\<close> is under way: either it is still blocked
  in the \<^verbatim>\<open>join\<close> with the headers untouched, or it has returned and the client is
  logged out.
\<close>

definition logout_inv :: "(string \<rightharpoonup> string) \<Rightarrow> 'm client \<Rightarrow> bool" where
  "logout_inv h s =
     (case main s of
        None \<Rightarrow> logged_out s \<and> \<not> message_polling s \<and> headers s = h(''Authorization'' := None)
      | Some c \<Rightarrow> c = Logout \<and> \<not> message_polling s \<and> headers s = h)"

section \<open>Properties of the polling loop\<close>

lemmas thread_step_def = thread_step.simps

declare thread_step.simps [simp del]

lemmas loop_defs = thread_step_def get_messages_def sleep_def handler_def new_thread_def
  Let_def plain_env_def py_sleep_def

lemmas client_defs = poll_def begin_call_def stopped_def say_def init_def running_def
  displayed_by_def

lemma thread_step_cursor:
  assumes "thread_step env flag inp th = Some (th', out)" and "cursor_ok th"
  shows "cursor_ok th' \<and> last_message_count th \<le> last_message_count th'"
  using assms
  by (auto simp: thread_step_def cursor_ok_def sleep_def handler_def Let_def
           split: pc.splits tinput.splits list.splits if_splits prod.splits option.splits
                  jdata.splits sum.splits)

lemma thread_run_cursor:
  "thread_run env inputs th = Some (th', out) \<Longrightarrow> cursor_ok th \<Longrightarrow>
     cursor_ok th' \<and> last_message_count th \<le> last_message_count th'"
proof (induction inputs arbitrary: th out)
  case Nil
  then show ?case by simp
next
  case (Cons x inputs)
  obtain flag inp where x: "x = (flag, inp)" by (cases x)
  from Cons.prems(1) x obtain th1 out1 out2 where
    s: "thread_step env flag inp th = Some (th1, out1)" and
    r: "thread_run env inputs th1 = Some (th', out2)"
    by (auto split: option.splits)
  from thread_step_cursor [OF s Cons.prems(2)] Cons.IH [OF r] show ?case
    by auto
qed

lemma cursor_ok_new_thread: "cursor_ok (new_thread room iv)"
  by (simp add: cursor_ok_def new_thread_def)

text \<open>
  C4. The cursor \<^verbatim>\<open>last_message_count\<close> never decreases during the loop's lifetime:
  for a loop started by \<^verbatim>\<open>start_message_polling\<close>, whatever the fetches return (shorter
  windows, values that are no lists and failed fetches included), whatever
  \<^verbatim>\<open>_display_message\<close> and \<^verbatim>\<open>time.sleep\<close> do and whatever the flag is, the cursor at a
  later point of the run is at least the cursor at an earlier point.
\<close>

theorem cursor_never_decreases:
  assumes "thread_run env inputs1 (new_thread room iv) = Some (th1, out1)"
    and "thread_run env inputs2 th1 = Some (th2, out2)"
  shows "last_message_count th1 \<le> last_message_count th2"
proof -
  have "cursor_ok th1"
    using thread_run_cursor [OF assms(1) cursor_ok_new_thread] by simp
  with thread_run_cursor [OF assms(2)] show ?thesis by simp
qed

text \<open>
  The theorem at work: a first cycle delivers three messages; later a shorter window
  and a failed fetch come in, and the cursor stays at 3.
\<close>

theorem cursor_never_decreases_witness:
  "thread_run plain_env
     [(True, Tick), (True, Returned (Inr \<lparr>data = Some (DList [1, 2, 3::nat])\<rparr>)),
      (True, Tick), (True, Tick), (True, Tick), (True, Tick)]
     (new_thread ''general'' (Finite 2))
   = Some (\<lparr>room_id = ''general'', interval = Finite 2, last_message_count = 3,
             pc = Sleeping\<rparr>,
           [AFetch ''general'' 10, ADisplay 1, ADisplay 2, ADisplay 3, ASleep (Finite 2)]) \<and>
   thread_run plain_env
     [(True, Tick), (True, Tick), (True, Returned (Inr \<lparr>data = Some (DList [3::nat])\<rparr>)),
      (True, Tick), (True, Tick),
      (True, Returned (Inl (RequestException (ustr ''Network error: timed out''))))]
     \<lparr>room_id = ''general'', interval = Finite 2, last_message_count = 3, pc = Sleeping\<rparr>
   = Some (\<lparr>room_id = ''general'', interval = Finite 2, last_message_count = 3,
             pc = Sleeping\<rparr>,
           [AFetch ''general'' 10, ASleep (Finite 2), AFetch ''general'' 10,
            APrint (ustr ''Failed to get messages: '' @ ustr ''Network error: timed out''),
            ASleep (Finite 2)]) \<and>
   last_message_count
     \<lparr>room_id = ''general'', interval = Finite 2, last_message_count = 3,
       pc = Sleeping :: nat pc\<rparr>
   \<le> last_message_count
     \<lparr>room_id = ''general'', interval = Finite 2, last_message_count = 3,
       pc = Sleeping :: nat pc\<rparr>"
proof -
  have r1: "thread_run plain_env
     [(True, Tick), (True, Returned (Inr \<lparr>data = Some (DList [1, 2, 3::nat])\<rparr>)),
      (True, Tick), (True, Tick), (True, Tick), (True, Tick)]
     (new_thread ''general'' (Finite 2))
   = Some (\<lparr>room_id = ''general'', interval = Finite 2, last_message_count = 3,
             pc = Sleeping\<rparr>,
           [AFetch ''general'' 10, ADisplay 1, ADisplay 2, ADisplay 3, ASleep (Finite 2)])"
    by (simp add: loop_defs)
  have r2: "thread_run plain_env
     [(True, Tick), (True, Tick), (True, Returned (Inr \<lparr>data = Some (DList [3::nat])\<rparr>)),
      (True, Tick), (True, Tick),
      (True, Returned (Inl (RequestException (ustr ''Network error: timed out''))))]
     \<lparr>room_id = ''general'', interval = Finite 2, last_message_count = 3, pc = Sleeping\<rparr>
   = Some (\<lparr>room_id = ''general'', interval = Finite 2, last_message_count = 3,
             pc = Sleeping\<rparr>,
           [AFetch ''general'' 10, ASleep (Finite 2), AFetch ''general'' 10,
            APrint (ustr ''Failed to get messages: '' @ ustr ''Network error: timed out''),
            ASleep (Finite 2)])"
    by (simp add: loop_defs)
  from cursor_never_decreases [OF r1 r2] r1 r2 show ?thesis
    by blast
qed

text \<open>
  C5, as stated, fails: a loop whose interval \<^verbatim>\<open>time.sleep\<close> does not accept ends
  after a failed fetch. \<^verbatim>\<open>start_message_polling\<close> takes any interval; with the interval
  \<open>-1\<close> the first fetch fails and is printed, \<^verbatim>\<open>time.sleep(-1)\<close> raises
  \<^verbatim>\<open>ValueError\<close>, the handler prints it and calls \<^verbatim>\<open>time.sleep(-1)\<close> again, which
  raises out of the handler: the thread has ended and no further cycle runs.
\<close>

theorem failed_fetch_counterexample:
  "thread_run plain_env
     [(True, Tick), (True, Returned (Inl (RequestException (ustr ''Network error: timed out''))))]
     (new_thread ''general'' (Finite (- 1)) :: nat thread)
   = Some (\<lparr>room_id = ''general'', interval = Finite (- 1), last_message_count = 0,
             pc = Crashed\<rparr>,
           [AFetch ''general'' 10,
            APrint (ustr ''Failed to get messages: '' @ ustr ''Network error: timed out''),
            APrint (ustr ''Error polling messages: '' @
                    ustr ''sleep length must be non-negative'')]) \<and>
   thread_step plain_env True Tick
     \<lparr>room_id = ''general'', interval = Finite (- 1), last_message_count = 0,
       pc = Crashed :: nat pc\<rparr> = None"
  by (simp add: loop_defs)

text \<open>
  C5, amended. When \<^verbatim>\<open>time.sleep\<close> accepts the loop's interval and the error line
  can be written to the standard output, a fetch that fails with a transport or API
  error does not end the loop. With the loop waiting for its request: the exception is
  printed by \<^verbatim>\<open>get_messages\<close> and goes no further, the loop sleeps for the interval,
  and when it wakes with the flag still set it calls \<^verbatim>\<open>get_messages\<close> again; its cursor
  and its other variables are what they were.
\<close>

theorem failed_fetch_keeps_polling:
  assumes "pc th = InFetch" and "time_sleep env (interval th) = None"
    and "stdout_write env (ustr ''Failed to get messages: '' @ error_str e) = None"
  shows "thread_run env [(f1, Returned (Inl e)), (f2, Tick), (True, Tick)] th =
           Some (th, [APrint (ustr ''Failed to get messages: '' @ error_str e),
                      ASleep (interval th),
                      AFetch (room_id th) 10])"
  using assms by (simp add: thread_step_def get_messages_def sleep_def)

theorem failed_fetch_keeps_polling_witness:
  "pc \<lparr>room_id = ''general'', interval = Finite 2, last_message_count = 5,
       pc = InFetch :: nat pc\<rparr> = InFetch \<and>
   time_sleep (plain_env :: nat env)
     (interval \<lparr>room_id = ''general'', interval = Finite 2, last_message_count = 5,
                 pc = InFetch :: nat pc\<rparr>) = None \<and>
   stdout_write (plain_env :: nat env)
     (ustr ''Failed to get messages: '' @
      error_str (ValueError (ustr ''API Error: room not found''))) = None \<and>
   thread_run plain_env
     [(True, Returned (Inl (ValueError (ustr ''API Error: room not found'')))),
      (True, Tick), (True, Tick)]
     \<lparr>room_id = ''general'', interval = Finite 2, last_message_count = 5,
       pc = InFetch :: nat pc\<rparr>
   = Some (\<lparr>room_id = ''general'', interval = Finite 2, last_message_count = 5,
             pc = InFetch\<rparr>,
           [APrint (ustr ''Failed to get messages: '' @ ustr ''API Error: room not found''),
            ASleep (Finite 2), AFetch ''general'' 10])"
proof -
  let ?th = "\<lparr>room_id = ''general'', interval = Finite 2, last_message_count = 5,
               pc = InFetch :: nat pc\<rparr>"
  have a: "pc ?th = InFetch" by simp
  have b: "time_sleep (plain_env :: nat env) (interval ?th) = None"
    by (simp add: plain_env_def py_sleep_def)
  have c: "stdout_write (plain_env :: nat env)
     (ustr ''Failed to get messages: '' @
      error_str (ValueError (ustr ''API Error: room not found''))) = None"
    by (simp add: plain_env_def)
  from failed_fetch_keeps_polling [OF a b c, of True True] a b c
  show ?thesis by simp
qed

text \<open>
  C8. The first fetch is not delayed by the interval. The first step of a loop that
  \<^verbatim>\<open>start_message_polling\<close> has started, with the flag still set, is the call of
  \<^verbatim>\<open>get_messages\<close>; and in every run of the loop, whatever it has done begins with
  that call, so no sleep comes before the first fetch.
\<close>

theorem first_fetch_is_immediate:
  "thread_step env True Tick (new_thread room iv :: 'm thread) =
      Some ((new_thread room iv)\<lparr>pc := InFetch\<rparr>, [AFetch room 10]) \<and>
   (\<forall>inputs th out.
       thread_run env inputs (new_thread room iv :: 'm thread) = Some (th, out) \<longrightarrow>
       out = [] \<or> hd out = AFetch room 10)"
proof -
  have a: "thread_step env True Tick (new_thread room iv :: 'm thread) =
      Some ((new_thread room iv)\<lparr>pc := InFetch\<rparr>, [AFetch room 10])"
    by (simp add: thread_step_def new_thread_def)
  have b: "out = [] \<or> hd out = AFetch room 10"
    if run: "thread_run env inputs (new_thread room iv :: 'm thread) = Some (th, out)"
    for inputs th out
  proof (cases inputs)
    case Nil
    with run show ?thesis by simp
  next
    case (Cons x rest)
    obtain flag inp where x: "x = (flag, inp)" by (cases x)
    show ?thesis
    proof (cases flag)
      case True
      with run Cons x show ?thesis
        by (auto simp: thread_step_def new_thread_def split: option.splits tinput.splits)
    next
      case False
      show ?thesis
      proof (cases rest)
        case Nil
        with run Cons x False show ?thesis
          by (auto simp: thread_step_def new_thread_def split: option.splits tinput.splits)
      next
        case (Cons y rest')
        with run \<open>inputs = x # rest\<close> x False show ?thesis
          by (cases y)
            (auto simp: thread_step_def new_thread_def split: option.splits tinput.splits)
      qed
    qed
  qed
  from a b show ?thesis by blast
qed

theorem first_fetch_is_immediate_witness:
  "thread_run plain_env
     [(True, Tick), (True, Returned (Inr \<lparr>data = Some (DList [7::nat])\<rparr>)),
      (True, Tick), (True, Tick)]
     (new_thread ''general'' (Finite 2))
   = Some (\<lparr>room_id = ''general'', interval = Finite 2, last_message_count = 1,
             pc = Sleeping\<rparr>,
           [AFetch ''general'' 10, ADisplay 7, ASleep (Finite 2)]) \<and>
   hd [AFetch ''general'' 10, ADisplay (7::nat), ASleep (Finite 2)] = AFetch ''general'' 10"
proof -
  have r: "thread_run plain_env
     [(True, Tick), (True, Returned (Inr \<lparr>data = Some (DList [7::nat])\<rparr>)),
      (True, Tick), (True, Tick)]
     (new_thread ''general'' (Finite 2))
   = Some (\<lparr>room_id = ''general'', interval = Finite 2, last_message_count = 1,
             pc = Sleeping\<rparr>,
           [AFetch ''general'' 10, ADisplay 7, ASleep (Finite 2)])"
    by (simp add: loop_defs)
  from first_fetch_is_immediate [of plain_env "''general''" "Finite 2"] r show ?thesis
    by auto
qed

subsection \<open>Delivery against the room's history\<close>

lemma displayed_append: "displayed (xs @ ys) = displayed xs @ displayed ys"
  by (induction xs rule: displayed.induct) auto

lemma displayed_map_ADisplay: "displayed (map ADisplay ms) = ms"
  by (induction ms) auto


lemma subseq_set: "subseq xs ys \<Longrightarrow> set xs \<subseteq> set ys"
  by (metis subseq_conv_nths set_nths_subset)

lemma subseq_take_mono:
  assumes "subseq D (take a hist)" and "a \<le> b"
  shows "subseq D (take b hist)"
proof -
  have "take a hist = take a (take b hist)"
    using assms(2) by (simp add: min_def)
  then have "prefix (take a hist) (take b hist)"
    by (metis take_is_prefix)
  then have "subseq (take a hist) (take b hist)"
    by (rule prefix_imp_subseq)
  with assms(1) show ?thesis
    by (rule subseq_order.trans)
qed

lemma window_suffix:
  assumes "is_window hist lo xs" and "c < length xs"
  shows "take (lo + length xs) hist = take (lo + c) hist @ drop c xs"
proof -
  let ?k = "length xs"
  have xs: "xs = take ?k (drop lo hist)"
    using assms(1) by (simp add: is_window_def)
  have "drop c xs = drop c (take ?k (drop lo hist))"
    using xs by simp
  also have "\<dots> = take (?k - c) (drop (lo + c) hist)"
    by (simp add: drop_take add.commute)
  finally have d: "drop c xs = take (?k - c) (drop (lo + c) hist)" .
  have "take (lo + ?k) hist = take ((lo + c) + (?k - c)) hist"
    using assms(2) by simp
  also have "\<dots> = take (lo + c) hist @ take (?k - c) (drop (lo + c) hist)"
    by (rule take_add)
  finally show ?thesis using d by simp
qed

lemma sleep_keeps:
  assumes "sleep env th out = (th', out')"
  shows "last_message_count th' = last_message_count th \<and>
         (pc th' = Sleeping \<or> pc th' = Crashed) \<and> displayed out' = displayed out"
  using assms
  by (auto simp: sleep_def handler_def displayed_append split: option.splits)

lemma within_after_sleep:
  assumes "sleep env th out = (th', out')"
    and "subseq (D @ displayed out) (take (lo + last_message_count th) hist)"
  shows "delivered_within hist lo th' (D @ displayed out')"
  using sleep_keeps [OF assms(1)] assms(2) by (auto simp: delivered_within_def)

lemma step_within_tick:
  assumes s: "thread_step env flag Tick th = Some (th', out)"
    and d: "delivered_within hist lo th D"
    and nr: "\<forall>m \<in> set hist. display env m = None"
  shows "delivered_within hist lo th' (D @ displayed out)"
proof (cases "pc th")
  case AtWhile
  with s d show ?thesis
    by (auto simp: thread_step_def delivered_within_def split: if_splits)
next
  case InFetch
  with s show ?thesis by (simp add: thread_step_def)
next
  case (Delivering ms n)
  show ?thesis
  proof (cases ms)
    case Nil
    with s Delivering have sl: "sleep env (th\<lparr>last_message_count := n\<rparr>) [] = (th', out)"
      by (simp add: thread_step_def)
    from d Delivering Nil
    have "subseq (D @ displayed []) (take (lo + last_message_count (th\<lparr>last_message_count := n\<rparr>)) hist)"
      by (simp add: delivered_within_def)
    from within_after_sleep [OF sl this] show ?thesis by simp
  next
    case (Cons m ms')
    from d Delivering Cons have sub: "subseq (D @ m # ms') (take (lo + n) hist)"
      by (simp add: delivered_within_def)
    then have "set (D @ m # ms') \<subseteq> set (take (lo + n) hist)"
      by (rule subseq_set)
    then have "m \<in> set hist"
      using set_take_subset [of "lo + n" hist] by auto
    with nr have "display env m = None" by simp
    with s Delivering Cons have "th' = th\<lparr>pc := Delivering ms' n\<rparr>" and "out = [ADisplay m]"
      by (simp_all add: thread_step_def)
    with sub show ?thesis
      by (simp add: delivered_within_def)
  qed
next
  case Sleeping
  with s d show ?thesis
    by (auto simp: thread_step_def delivered_within_def)
next
  case Exited
  with s show ?thesis by (simp add: thread_step_def)
next
  case Crashed
  with s show ?thesis by (simp add: thread_step_def)
qed

lemma step_within_returned:
  assumes s: "thread_step env flag (Returned r) th = Some (th', out)"
    and d: "delivered_within hist lo th D"
    and g: "get_messages env r = Inr (DList msgs, pr)"
    and w: "is_window hist lo' msgs" and le: "lo \<le> lo'"
  shows "delivered_within hist lo' th' (D @ displayed out)"
proof -
  have pr: "displayed pr = []"
    using g by (auto simp: get_messages_def split: sum.splits option.splits)
  from s have p: "pc th = InFetch"
    by (auto simp: thread_step_def split: pc.splits list.splits)
  let ?c = "last_message_count th"
  from d p have D: "subseq D (take (lo + ?c) hist)"
    by (simp add: delivered_within_def)
  then have D': "subseq D (take (lo' + ?c) hist)"
    using le by (auto intro: subseq_take_mono)
  show ?thesis
  proof (cases "?c < length msgs")
    case True
    with s p g have th': "th' = th\<lparr>pc := Delivering (drop ?c msgs) (length msgs)\<rparr>"
      and o: "out = pr"
      by (auto simp: thread_step_def)
    from w True have "take (lo' + length msgs) hist = take (lo' + ?c) hist @ drop ?c msgs"
      by (simp add: window_suffix)
    moreover have "subseq (D @ drop ?c msgs) (take (lo' + ?c) hist @ drop ?c msgs)"
      using D' by (simp add: list_emb_append_mono)
    ultimately show ?thesis
      using th' o pr by (simp add: delivered_within_def)
  next
    case False
    with s p g have sl: "sleep env th pr = (th', out)"
      by (auto simp: thread_step_def)
    from D' pr have "subseq (D @ displayed pr) (take (lo' + ?c) hist)" by simp
    from within_after_sleep [OF sl this] show ?thesis .
  qed
qed

lemma run_within:
  "thread_run env inputs th = Some (th', out) \<Longrightarrow> windows env hist lo0 los inputs \<Longrightarrow>
   delivered_within hist lo0 th D \<Longrightarrow> \<forall>m \<in> set hist. display env m = None \<Longrightarrow>
     \<exists>lo. delivered_within hist lo th' (D @ displayed out)"
proof (induction inputs arbitrary: th out lo0 los D)
  case Nil
  then show ?case by auto
next
  case (Cons x inputs)
  obtain flag inp where x: "x = (flag, inp)" by (cases x)
  from Cons.prems(1) x obtain th1 out1 out2 where
    s: "thread_step env flag inp th = Some (th1, out1)" and
    r: "thread_run env inputs th1 = Some (th', out2)" and
    o: "out = out1 @ out2"
    by (auto split: option.splits)
  show ?case
  proof (cases inp)
    case Tick
    with Cons.prems(2) x have w: "windows env hist lo0 los inputs" by simp
    from s Tick Cons.prems(3,4) have "delivered_within hist lo0 th1 (D @ displayed out1)"
      by (auto intro: step_within_tick)
    from Cons.IH [OF r w this Cons.prems(4)] show ?thesis
      by (simp add: o displayed_append)
  next
    case (Returned res)
    with Cons.prems(2) x obtain lo los' msgs pr where
      l: "los = lo # los'" "lo0 \<le> lo" "get_messages env res = Inr (DList msgs, pr)"
         "is_window hist lo msgs" "windows env hist lo los' inputs"
      by (cases los) (auto split: jdata.splits sum.splits)
    note g = l(3)
    from step_within_returned [OF _ Cons.prems(3) g l(4) l(2)] s Returned
    have "delivered_within hist lo th1 (D @ displayed out1)"
      by simp
    from Cons.IH [OF r l(5) this Cons.prems(4)] show ?thesis
      by (simp add: o displayed_append)
  qed
qed

lemma within_subseq:
  assumes "delivered_within hist lo th D"
  shows "subseq D hist"
proof -
  have "\<exists>n. subseq D (take n hist)"
  proof (cases "pc th")
    case (Delivering ms n)
    with assms have "subseq (D @ ms) (take (lo + n) hist)"
      by (simp add: delivered_within_def)
    moreover have "subseq D (D @ ms)"
      by (simp add: prefix_imp_subseq)
    ultimately show ?thesis
      by (blast intro: subseq_order.trans)
  qed (use assms in \<open>auto simp: delivered_within_def\<close>)
  then obtain n where "subseq D (take n hist)" ..
  moreover have "subseq (take n hist) hist"
    by (simp add: prefix_imp_subseq take_is_prefix)
  ultimately show ?thesis
    by (rule subseq_order.trans)
qed

lemma run_subseq:
  assumes "thread_run env inputs (new_thread room iv) = Some (th, out)"
    and "windows env hist 0 los inputs"
    and "\<forall>m \<in> set hist. display env m = None"
  shows "subseq (displayed out) hist"
proof -
  have "delivered_within hist 0 (new_thread room iv) []"
    by (simp add: delivered_within_def new_thread_def)
  from run_within [OF assms(1,2) this assms(3)]
  obtain lo where "delivered_within hist lo th (displayed out)"
    by auto
  then show ?thesis by (rule within_subseq)
qed

text \<open>
  The \<^verbatim>\<open>for\<close> loop displays what it was given, in that order, as long as no call of
  \<^verbatim>\<open>_display_message\<close> raises.
\<close>

lemma for_loop_displays:
  "pc th = Delivering ms n \<Longrightarrow> length flags = length ms \<Longrightarrow>
   \<forall>m \<in> set ms. display env m = None \<Longrightarrow>
     thread_run env (map (\<lambda>f. (f, Tick)) flags) th =
       Some (th\<lparr>pc := Delivering [] n\<rparr>, map ADisplay ms)"
proof (induction ms arbitrary: th flags)
  case Nil
  then show ?case by simp
next
  case (Cons m ms)
  from Cons.prems(2) obtain f fs where f: "flags = f # fs" "length fs = length ms"
    by (cases flags) auto
  have s: "thread_step env f Tick th = Some (th\<lparr>pc := Delivering ms n\<rparr>, [ADisplay m])"
    using Cons.prems(1,3) by (simp add: thread_step_def)
  have "pc (th\<lparr>pc := Delivering ms n\<rparr>) = Delivering ms n" by simp
  moreover have "\<forall>m \<in> set ms. display env m = None" using Cons.prems(3) by simp
  ultimately have "thread_run env (map (\<lambda>f. (f, Tick)) fs) (th\<lparr>pc := Delivering ms n\<rparr>) =
       Some (th\<lparr>pc := Delivering ms n\<rparr>\<lparr>pc := Delivering [] n\<rparr>, map ADisplay ms)"
    using f(2) by (intro Cons.IH) simp_all
  with s f(1) show ?case by simp
qed

lemma cycle_displays_suffix:
  assumes "pc th = InFetch" and "get_messages env r = Inr (DList messages, pr)"
    and "last_message_count th < length messages"
    and "length flags = length messages - last_message_count th"
    and "\<forall>m \<in> set (drop (last_message_count th) messages). display env m = None"
  shows "thread_run env ((flag, Returned r) # map (\<lambda>f. (f, Tick)) flags) th =
           Some (th\<lparr>pc := Delivering [] (length messages)\<rparr>,
                 pr @ map ADisplay (drop (last_message_count th) messages))"
proof -
  let ?ms = "drop (last_message_count th) messages"
  let ?th1 = "th\<lparr>pc := Delivering ?ms (length messages)\<rparr>"
  have s: "thread_step env flag (Returned r) th = Some (?th1, pr)"
    using assms(1-3) by (simp add: thread_step_def)
  have "pc ?th1 = Delivering ?ms (length messages)" by simp
  moreover have "length flags = length ?ms" using assms(4) by simp
  ultimately have "thread_run env (map (\<lambda>f. (f, Tick)) flags) ?th1 =
       Some (?th1\<lparr>pc := Delivering [] (length messages)\<rparr>, map ADisplay ?ms)"
    using assms(5) by (rule for_loop_displays)
  with s show ?thesis by simp
qed


text \<open>
  A second way to a repeated message, with the same window fetched twice: when
  \<^verbatim>\<open>_display_message\<close> raises in the \<^verbatim>\<open>for\<close> loop, the handler runs and the cursor is
  not advanced, so the next cycle displays the window from its start again. Here the
  content of the second message is a lone surrogate, which the \<^verbatim>\<open>print\<close> to a UTF-8
  standard output cannot encode.
\<close>

lemma raising_display_redelivers:
  "map_option (\<lambda>(th, out). (last_message_count th, pc th, displayed out))
     (thread_run
        \<lparr>display = display_of (\<lambda>s. None) utf8_stdout, time_sleep = py_sleep 9223372036,
         stdout_write = utf8_stdout\<rparr>
        [(True, Tick),
         (True, Returned (Inr \<lparr>data = Some (DList
            [[ustr ''content'' \<mapsto> JStr (ustr ''hi'')],
             [ustr ''content'' \<mapsto> JStr [55296]]])\<rparr>)),
         (True, Tick), (True, Tick), (True, Tick), (True, Tick),
         (True, Returned (Inr \<lparr>data = Some (DList
            [[ustr ''content'' \<mapsto> JStr (ustr ''hi'')],
             [ustr ''content'' \<mapsto> JStr [55296]]])\<rparr>)),
         (True, Tick)]
        (new_thread ''general'' (Finite 2)))
   = Some (0, Delivering [[ustr ''content'' \<mapsto> JStr [55296]]] 2,
           [[ustr ''content'' \<mapsto> JStr (ustr ''hi'')],
            [ustr ''content'' \<mapsto> JStr [55296]],
            [ustr ''content'' \<mapsto> JStr (ustr ''hi'')]])"
  by (simp add: loop_defs display_of_def display_message_def format_time_def msg_get_def
        utf8_stdout_def ustr_def replace_Z_def)



text \<open>
  C6, as stated, fails: a later cycle can display a message that arrived before one
  already displayed. Of the history 9, 10, 11, 12 the first fetch returns the window
  11, 12, which is displayed; the second returns the window 9, 10, 11, longer by one.
  The loop takes its third element for the new message and displays 11 after 12.
\<close>

theorem arrival_order_counterexample:
  "thread_run plain_env
     [(True, Tick), (True, Returned (Inr \<lparr>data = Some (DList [11, 12::nat])\<rparr>)),
      (True, Tick), (True, Tick), (True, Tick), (True, Tick), (True, Tick),
      (True, Returned (Inr \<lparr>data = Some (DList [9, 10, 11])\<rparr>)),
      (True, Tick), (True, Tick)]
     (new_thread ''general'' (Finite 2))
   = Some (\<lparr>room_id = ''general'', interval = Finite 2, last_message_count = 3,
             pc = Sleeping\<rparr>,
           [AFetch ''general'' 10, ADisplay 11, ADisplay 12, ASleep (Finite 2),
            AFetch ''general'' 10, ADisplay 11, ASleep (Finite 2)]) \<and>
   displayed [AFetch ''general'' 10, ADisplay 11, ADisplay 12, ASleep (Finite 2),
              AFetch ''general'' 10, ADisplay (11::nat), ASleep (Finite 2)] = [11, 12, 11] \<and>
   is_window [9, 10, 11, 12::nat] 2 [11, 12] \<and>
   is_window [9, 10, 11, 12::nat] 0 [9, 10, 11] \<and>
   \<not> sorted [11, 12, 11::nat]"
  by (simp add: loop_defs is_window_def)

text \<open>
  C6, amended. Within a cycle: when the fetch returns a list with more messages than
  the cursor counts and \<^verbatim>\<open>_display_message\<close> raises on none of the messages after the
  cursor, the \<^verbatim>\<open>for\<close> loop displays those messages, all of them, in the order in which
  they were fetched. Across cycles: when every fetch result is a list that is a window
  of the room's history in arrival order, the start of the window never moves backwards,
  and \<^verbatim>\<open>_display_message\<close> raises on no message of the history, then everything the
  loop has displayed, in the order of display, is a subsequence of the history, so no
  message is displayed after one that arrived later.
\<close>

theorem delivered_in_arrival_order:
  "(pc th = InFetch \<and> get_messages env r = Inr (DList messages, pr) \<and>
    last_message_count th < length messages \<and>
    length flags = length messages - last_message_count th \<and>
    (\<forall>m \<in> set (drop (last_message_count th) messages). display env m = None) \<longrightarrow>
      thread_run env ((flag, Returned r) # map (\<lambda>f. (f, Tick)) flags) th =
        Some (th\<lparr>pc := Delivering [] (length messages)\<rparr>,
              pr @ map ADisplay (drop (last_message_count th) messages))) \<and>
   (thread_run env inputs (new_thread room iv) = Some (th', out) \<and>
    windows env hist 0 los inputs \<and> (\<forall>m \<in> set hist. display env m = None) \<longrightarrow>
      subseq (displayed out) hist)"
  using cycle_displays_suffix [of th env r messages pr flags flag]
    run_subseq [of env inputs room iv th' out hist los]
  by blast

theorem delivered_in_arrival_order_witness:
  "thread_run plain_env
     ((True, Returned (Inr \<lparr>data = Some (DList [1, 2, 3, 4, 5::nat])\<rparr>)) #
      map (\<lambda>f. (f, Tick)) [True, False])
     \<lparr>room_id = ''general'', interval = Finite 2, last_message_count = 3, pc = InFetch\<rparr>
   = Some (\<lparr>room_id = ''general'', interval = Finite 2, last_message_count = 3,
             pc = Delivering [] 5\<rparr>,
           [] @ map ADisplay (drop 3 [1, 2, 3, 4, 5])) \<and>
   subseq (displayed
     [AFetch ''general'' 10, ADisplay 1, ADisplay 2, ASleep (Finite 2),
      AFetch ''general'' 10,
      APrint (ustr ''Failed to get messages: '' @ ustr ''Network error: reset''),
      ASleep (Finite 2),
      AFetch ''general'' 10, ADisplay (4::nat), ASleep (Finite 2)])
     [1, 2, 3, 4, 5]"
proof -
  let ?th = "\<lparr>room_id = ''general'', interval = Finite 2, last_message_count = 3,
               pc = InFetch :: nat pc\<rparr>"
  let ?r = "Inr \<lparr>data = Some (DList [1, 2, 3, 4, 5::nat])\<rparr> :: nat outcome"
  let ?inputs = "[(True, Tick), (True, Returned (Inr \<lparr>data = Some (DList [1, 2::nat])\<rparr>)),
      (True, Tick), (True, Tick), (True, Tick), (True, Tick), (True, Tick),
      (True, Returned (Inl (RequestException (ustr ''Network error: reset'')))),
      (True, Tick), (True, Tick),
      (True, Returned (Inr \<lparr>data = Some (DList [2, 3, 4])\<rparr>)),
      (True, Tick), (True, Tick)]"
  have a1: "pc ?th = InFetch" by simp
  have a2: "get_messages plain_env ?r = Inr (DList [1, 2, 3, 4, 5], [])"
    by (simp add: get_messages_def)
  have a3: "last_message_count ?th < length [1, 2, 3, 4, 5::nat]" by simp
  have a4: "length [True, False] = length [1, 2, 3, 4, 5::nat] - last_message_count ?th"
    by simp
  have a5: "\<forall>m \<in> set (drop (last_message_count ?th) [1, 2, 3, 4, 5::nat]).
              display plain_env m = None"
    by (simp add: plain_env_def)
  have r: "thread_run plain_env ?inputs (new_thread ''general'' (Finite 2))
     = Some (\<lparr>room_id = ''general'', interval = Finite 2, last_message_count = 3,
               pc = Sleeping\<rparr>,
         [AFetch ''general'' 10, ADisplay 1, ADisplay 2, ASleep (Finite 2),
          AFetch ''general'' 10,
      APrint (ustr ''Failed to get messages: '' @ ustr ''Network error: reset''),
          ASleep (Finite 2), AFetch ''general'' 10, ADisplay 4, ASleep (Finite 2)])"
    by (simp add: loop_defs)
  have w: "windows plain_env [1, 2, 3, 4, 5::nat] 0 [0, 0, 1] ?inputs"
    by (simp add: is_window_def get_messages_def plain_env_def)
  have n: "\<forall>m \<in> set [1, 2, 3, 4, 5::nat]. display plain_env m = None"
    by (simp add: plain_env_def)
  from delivered_in_arrival_order
         [of ?th plain_env ?r "[1, 2, 3, 4, 5]" "[]" "[True, False]" True ?inputs
             "''general''" "Finite 2"
             "\<lparr>room_id = ''general'', interval = Finite 2, last_message_count = 3,
               pc = Sleeping\<rparr>"
             "[AFetch ''general'' 10, ADisplay 1, ADisplay 2, ASleep (Finite 2),
               AFetch ''general'' 10,
      APrint (ustr ''Failed to get messages: '' @ ustr ''Network error: reset''),
               ASleep (Finite 2), AFetch ''general'' 10, ADisplay 4, ASleep (Finite 2)]"
             "[1, 2, 3, 4, 5]" "[0, 0, 1]"]
       a1 a2 a3 a4 a5 r w n
  show ?thesis by simp
qed

section \<open>Displaying a message\<close>

text \<open>
  C9, as stated, fails: \<^verbatim>\<open>_display_message\<close> can raise on a message with a malformed
  timestamp. The \<^verbatim>\<open>print\<close> of the line is outside the \<^verbatim>\<open>try\<close> block. For a timestamp
  that is the lone surrogate U+D800 (a string the JSON decoder returns),
  \<^verbatim>\<open>fromisoformat\<close> raises \<^verbatim>\<open>ValueError\<close>, which is caught, and the \<^verbatim>\<open>print\<close> of the
  line with the raw timestamp to a UTF-8 standard output raises
  \<^verbatim>\<open>UnicodeEncodeError\<close>, which leaves the function.
\<close>

theorem malformed_timestamp_counterexample:
  "[ustr ''timestamp'' \<mapsto> JStr [55296], ustr ''author'' \<mapsto> JStr (ustr ''alice''),
    ustr ''content'' \<mapsto> JStr (ustr ''hello'')] (ustr ''timestamp'') = Some (JStr [55296]) \<and>
   (\<lambda>s. if s = ustr ''2024-05-01T10:30:07+00:00''
         then Some \<lparr>hour = 10, minute = 30, second = 7\<rparr> else None)
     (replace_Z [55296]) = None \<and>
   display_message
     (\<lambda>s. if s = ustr ''2024-05-01T10:30:07+00:00''
           then Some \<lparr>hour = 10, minute = 30, second = 7\<rparr> else None)
     utf8_stdout
     [ustr ''timestamp'' \<mapsto> JStr [55296], ustr ''author'' \<mapsto> JStr (ustr ''alice''),
      ustr ''content'' \<mapsto> JStr (ustr ''hello'')]
   = Inl (UnicodeEncodeError (ustr ''surrogates not allowed''))"
  by (simp add: display_message_def format_time_def msg_get_def utf8_stdout_def ustr_def
        replace_Z_def)

text \<open>
  C9, amended. For every message whose timestamp is a string that
  \<^verbatim>\<open>datetime.fromisoformat\<close> rejects (after the code has replaced each \<^verbatim>\<open>Z\<close> by
  \<^verbatim>\<open>+00:00\<close>), the parse error does not leave \<^verbatim>\<open>_display_message\<close>: the line it prints
  has the timestamp string as it came in place of a formatted time. The call raises only
  when the \<^verbatim>\<open>print\<close> of that line raises, and then with the exception of \<^verbatim>\<open>print\<close>.
  This holds whatever \<^verbatim>\<open>fromisoformat\<close> accepts otherwise and whatever the standard
  output can write.
\<close>

theorem malformed_timestamp_shown_raw:
  assumes "message (ustr ''timestamp'') = Some (JStr ts)" and "fromiso (replace_Z ts) = None"
  shows "display_message fromiso stdout message =
           (case stdout (ustr ''['' @ ts @ ustr ''] '' @
                         py_str (msg_get message (ustr ''author'') (JStr (ustr ''Unknown''))) @
                         ustr '': '' @
                         py_str (msg_get message (ustr ''content'') (JStr (ustr ''''))))
            of None \<Rightarrow>
                 Inr (ustr ''['' @ ts @ ustr ''] '' @
                      py_str (msg_get message (ustr ''author'') (JStr (ustr ''Unknown''))) @
                      ustr '': '' @
                      py_str (msg_get message (ustr ''content'') (JStr (ustr ''''))))
             | Some e \<Rightarrow> Inl e)"
  using assms
  by (simp add: display_message_def format_time_def msg_get_def Let_def split: option.split)

theorem malformed_timestamp_shown_raw_witness:
  "[ustr ''timestamp'' \<mapsto> JStr (ustr ''yesterday at noon''),
    ustr ''author'' \<mapsto> JStr (ustr ''alice''),
    ustr ''content'' \<mapsto> JStr (ustr ''hello'')] (ustr ''timestamp'')
     = Some (JStr (ustr ''yesterday at noon'')) \<and>
   (\<lambda>s. if s = ustr ''2024-05-01T10:30:07+00:00''
         then Some \<lparr>hour = 10, minute = 30, second = 7\<rparr> else None)
     (replace_Z (ustr ''yesterday at noon'')) = None \<and>
   display_message
     (\<lambda>s. if s = ustr ''2024-05-01T10:30:07+00:00''
           then Some \<lparr>hour = 10, minute = 30, second = 7\<rparr> else None)
     utf8_stdout
     [ustr ''timestamp'' \<mapsto> JStr (ustr ''yesterday at noon''),
      ustr ''author'' \<mapsto> JStr (ustr ''alice''),
      ustr ''content'' \<mapsto> JStr (ustr ''hello'')]
   = Inr (ustr ''[yesterday at noon] alice: hello'')"
proof -
  let ?fromiso = "\<lambda>s. if s = ustr ''2024-05-01T10:30:07+00:00''
                       then Some \<lparr>hour = 10, minute = 30, second = 7\<rparr> else None"
  let ?message = "[ustr ''timestamp'' \<mapsto> JStr (ustr ''yesterday at noon''),
                   ustr ''author'' \<mapsto> JStr (ustr ''alice''),
                   ustr ''content'' \<mapsto> JStr (ustr ''hello'')]"
  have a: "?message (ustr ''timestamp'') = Some (JStr (ustr ''yesterday at noon''))"
    by (simp add: ustr_def)
  have b: "?fromiso (replace_Z (ustr ''yesterday at noon'')) = None"
    by (simp add: replace_Z_def ustr_def)
  from malformed_timestamp_shown_raw
         [of ?message "ustr ''yesterday at noon''" ?fromiso utf8_stdout, OF a b] a b
  show ?thesis
    by (simp add: msg_get_def utf8_stdout_def ustr_def)
qed

text \<open>A well-formed timestamp, for comparison: the time of day is printed.\<close>

lemma wellformed_timestamp_example:
  "display_message
     (\<lambda>s. if s = ustr ''2024-05-01T10:30:07+00:00''
           then Some \<lparr>hour = 10, minute = 30, second = 7\<rparr> else None)
     utf8_stdout
     [ustr ''timestamp'' \<mapsto> JStr (ustr ''2024-05-01T10:30:07Z''),
      ustr ''content'' \<mapsto> JStr (ustr ''hello'')]
   = Inr (ustr ''[10:30:07] Unknown: hello'')"
  by (simp add: display_message_def format_time_def msg_get_def replace_Z_def strftime_def
        two_digits_def utf8_stdout_def ustr_def)

text \<open>No exception other than one of \<^verbatim>\<open>print\<close> leaves \<^verbatim>\<open>_display_message\<close>.\<close>

lemma display_message_raises_only_print:
  "display_message fromiso stdout message = Inl e \<Longrightarrow> \<exists>line. stdout line = Some e"
  by (auto simp: display_message_def Let_def split: option.splits)

section \<open>Starting, stopping and logging out\<close>




text \<open>
  C2 fails on the code. The loop is waiting for its request when
  \<^verbatim>\<open>stop_message_polling\<close> is called; the \<^verbatim>\<open>join\<close> gives up after its second and
  \<^verbatim>\<open>stop_message_polling\<close> returns, having printed that polling has stopped, with the
  thread still in its request. Then the request returns a message: the loop, which tests
  the flag only at the \<^verbatim>\<open>while\<close>, displays it.
\<close>

theorem delivery_after_stop_returned:
  "map_option (\<lambda>s. (main s, message_polling s, map pc (threads s), log s))
     (run plain_env [Call (Start ''general'' (Finite 2)), Thread 0, Call Stop, JoinReturns]
        (init Map.empty :: nat client))
   = Some (None, False, [InFetch],
       [(Main, APrint (ustr ''Started message polling for room general'')),
        (Poller 0, AFetch ''general'' 10),
        (Main, APrint (ustr ''Stopped message polling''))]) \<and>
   map_option (\<lambda>s. (main s, message_polling s, log s))
     (run plain_env [Call (Start ''general'' (Finite 2)), Thread 0, Call Stop, JoinReturns,
           FetchReturns 0 (Inr \<lparr>data = Some (DList [1])\<rparr>), Thread 0]
        (init Map.empty :: nat client))
   = Some (None, False,
       [(Main, APrint (ustr ''Started message polling for room general'')),
        (Poller 0, AFetch ''general'' 10),
        (Main, APrint (ustr ''Stopped message polling'')),
        (Poller 0, ADisplay 1)])"
  by (simp add: loop_defs client_defs)

text \<open>
  C3 fails on the code. The first loop is in its two-second sleep when
  \<^verbatim>\<open>start_message_polling\<close> is called again. \<^verbatim>\<open>stop_message_polling\<close> clears the flag and
  its \<^verbatim>\<open>join\<close> gives up after one second; \<^verbatim>\<open>start_message_polling\<close> sets the flag again
  and starts the second thread. The first loop wakes up, finds the flag set and goes on:
  two loops are running, and each displays the next message.
\<close>

theorem restart_leaves_two_loops:
  "map_option (\<lambda>s. (main s, map running (threads s), polling_thread s,
                    displayed_by 0 (log s), displayed_by 1 (log s)))
     (run plain_env
        [Call (Start ''general'' (Finite 2)), Thread 0,
         FetchReturns 0 (Inr \<lparr>data = Some (DList [])\<rparr>),
         Call (Start ''general'' (Finite 2)), JoinReturns,
         Thread 0, Thread 0, Thread 1,
         FetchReturns 0 (Inr \<lparr>data = Some (DList [1])\<rparr>), Thread 0,
         FetchReturns 1 (Inr \<lparr>data = Some (DList [1])\<rparr>), Thread 1]
        (init Map.empty :: nat client))
   = Some (None, [True, True], Some 1, [1], [1])"
  by (simp add: loop_defs client_defs)

subsection \<open>Logout\<close>

lemma poll_fields:
  assumes "poll env t inp s = Some s'"
  shows "main s' = main s \<and> headers s' = headers s \<and> token s' = token s \<and>
         user_info s' = user_info s \<and> current_room s' = current_room s \<and>
         message_polling s' = message_polling s \<and> polling_thread s' = polling_thread s"
  using assms by (auto simp: poll_def say_def split: if_splits option.splits)

lemma step_logout_inv:
  assumes "step env e s = Some s'" and "\<not> is_call e" and "logout_inv h s"
  shows "logout_inv h s'"
proof (cases e)
  case (Call c)
  with assms(2) show ?thesis by simp
next
  case JoinReturns
  with assms(1,3) show ?thesis
    by (auto simp: logout_inv_def logged_out_def stopped_def say_def fun_upd_idem domIff
             split: option.splits if_splits)
next
  case (Thread t)
  with assms(1) have "poll env t Tick s = Some s'" by simp
  from poll_fields [OF this] assms(3) show ?thesis
    by (auto simp: logout_inv_def logged_out_def split: option.splits)
next
  case (FetchReturns t r)
  with assms(1) have "poll env t (Returned r) s = Some s'" by simp
  from poll_fields [OF this] assms(3) show ?thesis
    by (auto simp: logout_inv_def logged_out_def split: option.splits)
qed

lemma run_logout_inv:
  "run env es s = Some s' \<Longrightarrow> \<not> list_ex is_call es \<Longrightarrow> logout_inv h s \<Longrightarrow> logout_inv h s'"
proof (induction es arbitrary: s)
  case Nil
  then show ?case by simp
next
  case (Cons e es)
  from Cons.prems(1) obtain s1 where s1: "step env e s = Some s1"
    and r: "run env es s1 = Some s'"
    by (auto split: option.splits)
  from Cons.prems(2) have e: "\<not> is_call e" and es: "\<not> list_ex is_call es" by auto
  from step_logout_inv [OF s1 e Cons.prems(3)] Cons.IH [OF r es] show ?case by simp
qed

lemma begin_logout_inv:
  assumes "main s = None"
  shows "logout_inv (headers s) (begin_call Logout s)"
  using assms
  by (auto simp: begin_call_def logout_inv_def logged_out_def stopped_def say_def Let_def
                 fun_upd_idem domIff
           split: option.splits if_splits)

lemma logout_returns:
  assumes "main s = None" and "run env (Call Logout # es) s = Some s'"
    and "\<not> list_ex is_call es" and "main s' = None"
  shows "logged_out s' \<and> \<not> message_polling s' \<and>
         headers s' = (headers s)(''Authorization'' := None)"
proof -
  from assms(1,2) have "run env es (begin_call Logout s) = Some s'" by simp
  from run_logout_inv [OF this assms(3) begin_logout_inv [OF assms(1)]] assms(4)
  show ?thesis by (simp add: logout_inv_def)
qed

text \<open>
  C10. Take any state of the client between two calls (logged in or not, polling or
  not, with any threads in any state), call \<^verbatim>\<open>logout\<close>, and let the polling threads and
  the \<^verbatim>\<open>join\<close> do anything until \<^verbatim>\<open>logout\<close> has returned. Then \<^verbatim>\<open>token\<close>,
  \<^verbatim>\<open>user_info\<close> and \<^verbatim>\<open>current_room\<close> are \<^verbatim>\<open>None\<close> and the session headers have no
  \<^verbatim>\<open>Authorization\<close> entry; and a further \<^verbatim>\<open>logout\<close> leaves these four as they are.
\<close>

theorem logout_clears_session:
  assumes "main s = None" and "run env (Call Logout # es) s = Some s'"
    and "\<not> list_ex is_call es" and "main s' = None"
  shows "token s' = None \<and> user_info s' = None \<and> current_room s' = None \<and>
         ''Authorization'' \<notin> dom (headers s') \<and>
         (\<forall>es' s''. run env (Call Logout # es') s' = Some s'' \<and> \<not> list_ex is_call es' \<and>
                    main s'' = None \<longrightarrow>
            token s'' = token s' \<and> user_info s'' = user_info s' \<and>
            current_room s'' = current_room s' \<and> headers s'' = headers s')"
proof -
  from logout_returns [OF assms] have a: "logged_out s'" by simp
  have b: "token s'' = token s' \<and> user_info s'' = user_info s' \<and>
            current_room s'' = current_room s' \<and> headers s'' = headers s'"
    if "run env (Call Logout # es') s' = Some s''" "\<not> list_ex is_call es'" "main s'' = None"
    for es' s''
  proof -
    from logout_returns [OF assms(4) that]
    have "logged_out s''" and "headers s'' = (headers s')(''Authorization'' := None)"
      by simp_all
    with a show ?thesis by (auto simp: logged_out_def)
  qed
  from a b show ?thesis unfolding logged_out_def by blast
qed

text \<open>
  The theorem at work: a client that is logged in and polling, its loop asleep, logs
  out (the \<^verbatim>\<open>join\<close> returns while the loop still sleeps), and then logs out once more.
\<close>

theorem logout_clears_session_witness:
  "\<exists>s' s''.
     run plain_env [Call Logout, JoinReturns]
       \<lparr>headers = [''Authorization'' \<mapsto> ''Bearer abc''], token = Some ''abc'',
        user_info = Some [ustr ''username'' \<mapsto> JStr (ustr ''alice'')], current_room = None,
        message_polling = True, polling_thread = Some 0, current_room_id = Some ''general'',
        threads = [\<lparr>room_id = ''general'', interval = Finite 2, last_message_count = 0,
                    pc = Sleeping :: nat pc\<rparr>],
        main = None, log = []\<rparr> = Some s' \<and>
     main s' = None \<and>
     token s' = None \<and> user_info s' = None \<and> current_room s' = None \<and>
     ''Authorization'' \<notin> dom (headers s') \<and>
     run plain_env [Call Logout] s' = Some s'' \<and> main s'' = None \<and>
     token s'' = token s' \<and> user_info s'' = user_info s' \<and>
     current_room s'' = current_room s' \<and> headers s'' = headers s'"
proof -
  let ?s = "\<lparr>headers = [''Authorization'' \<mapsto> ''Bearer abc''], token = Some ''abc'',
        user_info = Some [ustr ''username'' \<mapsto> JStr (ustr ''alice'')], current_room = None,
        message_polling = True, polling_thread = Some 0, current_room_id = Some ''general'',
        threads = [\<lparr>room_id = ''general'', interval = Finite 2, last_message_count = 0,
                    pc = Sleeping :: nat pc\<rparr>],
        main = None, log = []\<rparr>"
  have m: "main ?s = None" by simp
  have "\<exists>s'. run plain_env [Call Logout, JoinReturns] ?s = Some s' \<and> main s' = None \<and>
             \<not> message_polling s'"
    by (simp add: client_defs)
  then obtain s' where r: "run plain_env [Call Logout, JoinReturns] ?s = Some s'"
    and m': "main s' = None" and p': "\<not> message_polling s'"
    by blast
  have n: "\<not> list_ex is_call [JoinReturns :: nat event]" by simp
  have r2: "run plain_env [Call Logout] s' = Some (begin_call Logout s')"
    using m' by simp
  have m2: "main (begin_call Logout s') = None"
    using m' p' by (simp add: begin_call_def say_def)
  have n2: "\<not> list_ex is_call ([] :: nat event list)" by simp
  from logout_clears_session [OF m r n m'] r m' r2 m2 n2 show ?thesis
    by blast
qed

subsection \<open>What the defects do not touch\<close>

text \<open>
  A loop that is between two cycles (at its \<^verbatim>\<open>while\<close> test or asleep) and sees the flag
  cleared from then on displays nothing more and fetches nothing more: it ends at its
  next \<^verbatim>\<open>while\<close> test.
\<close>

lemma idle_loop_stays_quiet:
  "thread_run env inputs th = Some (th', out) \<Longrightarrow> \<forall>x \<in> set inputs. \<not> fst x \<Longrightarrow>
   pc th \<in> {AtWhile, Sleeping, Exited, Crashed} \<Longrightarrow>
     out = [] \<and> pc th' \<in> {AtWhile, Sleeping, Exited, Crashed}"
proof (induction inputs arbitrary: th out)
  case Nil
  then show ?case by simp
next
  case (Cons x inputs)
  obtain flag inp where x: "x = (flag, inp)" by (cases x)
  from Cons.prems(1) x obtain th1 out1 out2 where
    s: "thread_step env flag inp th = Some (th1, out1)" and
    r: "thread_run env inputs th1 = Some (th', out2)" and
    o: "out = out1 @ out2"
    by (auto split: option.splits)
  from Cons.prems(2) x have f: "\<not> flag" and fs: "\<forall>x \<in> set inputs. \<not> fst x" by auto
  from s f Cons.prems(3) have "out1 = [] \<and> pc th1 \<in> {AtWhile, Sleeping, Exited, Crashed}"
    by (auto simp: thread_step_def split: tinput.splits)
  with Cons.IH [OF r fs] o show ?case by simp
qed

end
